theory Spec2Isabelle
  imports Complex_Main "HOL-Library.Word"
begin

section \<open>Pool test strip cropper: the detection pipeline of app/cropper.py\<close>

text \<open>
  The development embeds \<^verbatim>\<open>crop_test_strip\<close> (app/cropper.py, lines 57-196).

  Conventions of the embedding.
  \<^item> Python's unbounded integers are \<open>int\<close>.
  \<^item> Python's floats are idealised as \<open>real\<close>: every ratio and the score are the exact
    quotients and products. The thresholds 1.5 and 15.0 are exact doubles; 0.01 and 0.95
    are compared against correctly rounded quotients of integers, and rounding is
    monotone, so the comparison of the rounded quotient with the rounded constant can
    differ from the exact one only for a quotient that is not the constant and lies within
    \<open>2\<^sup>-\<^sup>5\<^sup>2\<close> of it, which needs an image of more than \<open>10\<^sup>1\<^sup>3\<close> pixels. The double
    0.05 is \<open>(1 + 2\<^sup>-\<^sup>5\<^sup>4) / 20\<close>, so the rounded product \<^verbatim>\<open>w * 0.05\<close> has the integer part of
    \<open>w / 20\<close> for every width below \<open>2\<^sup>5\<^sup>0\<close>. Two scores are equal in the model when the
    exact products are, which the doubles of the program need not be: the tie-break of the
    loop is therefore stated for any computation of the scores (\<open>track_best\<close>).
  \<^item> An exception is a value \<open>Inl e\<close> of the result type \<open>error + 'a\<close>; a division is
    the function \<open>truediv\<close>, which raises on a zero divisor as Python's \<^verbatim>\<open>/\<close> does.
  \<^item> The OpenCV primitives (\<^verbatim>\<open>cv2.cvtColor\<close>, \<^verbatim>\<open>cv2.GaussianBlur\<close>, \<^verbatim>\<open>cv2.Canny\<close>,
    \<^verbatim>\<open>cv2.dilate\<close>, \<^verbatim>\<open>cv2.findContours\<close>, \<^verbatim>\<open>cv2.boundingRect\<close>, \<^verbatim>\<open>cv2.contourArea\<close>) are
    not code of the repository: they are the fields of a record \<open>cv2\<close> that every function
    of the pipeline takes as its first argument. The types of the intermediate buffers
    (\<open>'g\<close>) and of a contour (\<open>'c\<close>) are left open.
\<close>

subsection \<open>Images, errors, metadata\<close>

text \<open>
  A decoded image is what \<^verbatim>\<open>cv2.imdecode(..., IMREAD_COLOR)\<close> yields: an array of shape
  \<open>(height, width, 3)\<close> of bytes, here the list of its rows, each row a list of BGR pixels.
  \<^verbatim>\<open>image.shape[:2]\<close> is \<open>(height_of img, width_of img)\<close> and \<^verbatim>\<open>image.size\<close> is the product of
  the three dimensions. An array is rectangular; the list of rows is when \<open>rectangular\<close> holds.
\<close>

type_synonym pixel = "8 word \<times> 8 word \<times> 8 word"

type_synonym image = "pixel list list"

definition height_of :: "image \<Rightarrow> int" where
  "height_of img = int (length img)"

definition width_of :: "image \<Rightarrow> int" where
  "width_of img = (case img of [] \<Rightarrow> 0 | row # _ \<Rightarrow> int (length row))"

definition size_of :: "image \<Rightarrow> int" where
  "size_of img = height_of img * width_of img * 3"

definition rectangular :: "image \<Rightarrow> bool" where
  "rectangular img = (\<forall>row \<in> set img. int (length row) = width_of img)"

text \<open>
  The exceptions of the pipeline: the ValueError of line 74, Python's ZeroDivisionError,
  and \<^verbatim>\<open>cv2.error\<close>, which OpenCV raises on an array it cannot process.
\<close>

datatype error = ValueError string | ZeroDivisionError | Cv2Error

type_synonym box = "int \<times> int \<times> int \<times> int"

text \<open>
  The metadata dictionary. The keys \<^verbatim>\<open>"bbox"\<close> and \<^verbatim>\<open>"cropped_size"\<close> exist only after a
  successful detection: \<open>None\<close> is the absent key. \<open>original_size\<close> and \<open>cropped_size\<close> are
  \<open>(width, height)\<close>; \<open>bbox\<close> is \<open>(x, y, width, height)\<close>.
\<close>

record metadata =
  success :: bool
  original_size :: "int \<times> int"
  detection_method :: string
  message :: string
  bbox :: "box option"
  cropped_size :: "(int \<times> int) option"

subsection \<open>The OpenCV primitives, as parameters\<close>

record ('g, 'c) cv2 =
  cvtColor :: "image \<Rightarrow> 'g"
  GaussianBlur :: "'g \<Rightarrow> nat \<times> nat \<Rightarrow> nat \<Rightarrow> 'g"
  Canny :: "'g \<Rightarrow> nat \<Rightarrow> nat \<Rightarrow> 'g"
  dilate :: "'g \<Rightarrow> nat \<times> nat \<Rightarrow> nat \<Rightarrow> 'g"
  findContours :: "'g \<Rightarrow> 'c list"
  boundingRect :: "'c \<Rightarrow> box"
  contourArea :: "'c \<Rightarrow> real"

subsection \<open>Configuration (lines 35-50)\<close>

definition MIN_AREA_RATIO :: real where "MIN_AREA_RATIO = 0.01"
definition MAX_AREA_RATIO :: real where "MAX_AREA_RATIO = 0.95"
definition MIN_ASPECT_RATIO :: real where "MIN_ASPECT_RATIO = 1.5"
definition MAX_ASPECT_RATIO :: real where "MAX_ASPECT_RATIO = 15.0"
definition CROP_MARGIN_PERCENT :: real where "CROP_MARGIN_PERCENT = 0.05"

subsection \<open>Python arithmetic and slicing\<close>

text \<open>\<^verbatim>\<open>a / b\<close> raises ZeroDivisionError when \<open>b\<close> is zero.\<close>

definition truediv :: "real \<Rightarrow> real \<Rightarrow> error + real" where
  "truediv a b = (if b = 0 then Inl ZeroDivisionError else Inr (a / b))"

text \<open>\<^verbatim>\<open>int(r)\<close> truncates towards zero.\<close>

definition py_int :: "real \<Rightarrow> int" where
  "py_int r = (if 0 \<le> r then \<lfloor>r\<rfloor> else \<lceil>r\<rceil>)"

text \<open>
  A slice bound \<open>i\<close> on an axis of length \<open>n\<close>: a negative bound counts from the end, and
  every bound is clamped to \<open>0..n\<close>. \<^verbatim>\<open>xs[lo:hi]\<close> is empty when the bounds cross.
\<close>

definition slice_bound :: "nat \<Rightarrow> int \<Rightarrow> nat" where
  "slice_bound n i = (if i < 0 then nat (max 0 (i + int n)) else min (nat i) n)"

definition py_slice :: "int \<Rightarrow> int \<Rightarrow> 'a list \<Rightarrow> 'a list" where
  "py_slice lo hi xs =
     (let a = slice_bound (length xs) lo; b = slice_bound (length xs) hi
      in take (b - a) (drop a xs))"

text \<open>\<^verbatim>\<open>image[y1:y2, x1:x2]\<close>: rows \<open>y1..y2\<close>, and of each the columns \<open>x1..x2\<close>.\<close>

definition slice2 :: "image \<Rightarrow> int \<Rightarrow> int \<Rightarrow> int \<Rightarrow> int \<Rightarrow> image" where
  "slice2 img y1 y2 x1 x2 = map (py_slice x1 x2) (py_slice y1 y2 img)"

subsection \<open>Steps 1 to 3: preprocessing, edges, contours (lines 93-121)\<close>

text \<open>
  On an array of three channels none of the five calls raises. What line 93 does on an
  array of one channel is part of \<open>crop_test_strip_buffer\<close> below.
\<close>

definition find_contours :: "('g, 'c) cv2 \<Rightarrow> image \<Rightarrow> 'c list" where
  "find_contours cv img =
     (let gray = cvtColor cv img;
          blurred = GaussianBlur cv gray (5, 5) 0;
          edges = Canny cv blurred 50 150;
          edges = dilate cv edges (3, 3) 2
      in findContours cv edges)"

subsection \<open>Step 4: the best rectangular contour (lines 131-165)\<close>

text \<open>
  The filters of one iteration (lines 138-151). \<open>Inr None\<close> is \<^verbatim>\<open>continue\<close>; a contour
  that passes is handed on with its bounding box and its area ratio.
\<close>

definition filter_contour ::
  "('g, 'c) cv2 \<Rightarrow> int \<Rightarrow> 'c \<Rightarrow> error + (box \<times> real) option" where
  "filter_contour cv image_area contour =
     (case boundingRect cv contour of (x, y, w, h) \<Rightarrow>
        let contour_area = w * h in
        case truediv (real_of_int contour_area) (real_of_int image_area) of
          Inl e \<Rightarrow> Inl e
        | Inr area_ratio \<Rightarrow>
            if area_ratio < MIN_AREA_RATIO \<or> area_ratio > MAX_AREA_RATIO then Inr None
            else
              case (if w > 0 then truediv (real_of_int h) (real_of_int w) else Inr 0) of
                Inl e \<Rightarrow> Inl e
              | Inr aspect_ratio \<Rightarrow>
                  if aspect_ratio < MIN_ASPECT_RATIO \<or> aspect_ratio > MAX_ASPECT_RATIO
                  then Inr None
                  else Inr (Some ((x, y, w, h), area_ratio)))"

text \<open>The score of a contour that passed the filters (lines 155-161).\<close>

definition score_contour :: "('g, 'c) cv2 \<Rightarrow> 'c \<Rightarrow> box \<Rightarrow> real \<Rightarrow> error + real" where
  "score_contour cv contour b area_ratio =
     (case b of (x, y, w, h) \<Rightarrow>
        let contour_area = w * h;
            actual_area = contourArea cv contour
        in case (if contour_area > 0 then truediv actual_area (real_of_int contour_area)
                 else Inr 0) of
             Inl e \<Rightarrow> Inl e
           | Inr rectangularity \<Rightarrow> Inr (area_ratio * rectangularity))"

text \<open>
  One iteration of the loop on the state \<open>(best_contour, best_score)\<close> (lines 134-165),
  and the loop over the contours in the order \<^verbatim>\<open>findContours\<close> returned them, started
  from \<open>(None, 0)\<close> (lines 131-132).
\<close>

type_synonym best = "box option \<times> real"

definition loop_body :: "('g, 'c) cv2 \<Rightarrow> int \<Rightarrow> 'c \<Rightarrow> best \<Rightarrow> error + best" where
  "loop_body cv image_area contour st =
     (case st of (best_contour, best_score) \<Rightarrow>
        case filter_contour cv image_area contour of
          Inl e \<Rightarrow> Inl e
        | Inr None \<Rightarrow> Inr (best_contour, best_score)
        | Inr (Some (b, area_ratio)) \<Rightarrow>
            (case score_contour cv contour b area_ratio of
               Inl e \<Rightarrow> Inl e
             | Inr score \<Rightarrow>
                 if score > best_score then Inr (Some b, score)
                 else Inr (best_contour, best_score)))"

fun contour_loop :: "('g, 'c) cv2 \<Rightarrow> int \<Rightarrow> 'c list \<Rightarrow> best \<Rightarrow> error + best" where
  "contour_loop cv image_area [] st = Inr st"
| "contour_loop cv image_area (contour # contours) st =
     (case loop_body cv image_area contour st of
        Inl e \<Rightarrow> Inl e
      | Inr st' \<Rightarrow> contour_loop cv image_area contours st')"

definition select_best :: "('g, 'c) cv2 \<Rightarrow> int \<Rightarrow> 'c list \<Rightarrow> error + best" where
  "select_best cv image_area contours = contour_loop cv image_area contours (None, 0)"

subsection \<open>Step 5: the crop rectangle (lines 175-185)\<close>

text \<open>The corners \<open>(x1, y1, x2, y2)\<close> of the crop of an image \<open>width\<close> by \<open>height\<close>.\<close>

definition crop_box :: "int \<Rightarrow> int \<Rightarrow> box \<Rightarrow> box" where
  "crop_box width height best_contour =
     (case best_contour of (x, y, w, h) \<Rightarrow>
        let margin_x = py_int (real_of_int w * CROP_MARGIN_PERCENT);
            margin_y = py_int (real_of_int h * CROP_MARGIN_PERCENT);
            x1 = max 0 (x - margin_x);
            y1 = max 0 (y - margin_y);
            x2 = min width (x + w + margin_x);
            y2 = min height (y + h + margin_y)
        in (x1, y1, x2, y2))"

subsection \<open>The pipeline (lines 57-196)\<close>

definition invalid_image :: error where
  "invalid_image = ValueError ''Invalid image: image is None or empty''"

definition crop_test_strip ::
  "('g, 'c) cv2 \<Rightarrow> image option \<Rightarrow> error + (image \<times> metadata)" where
  "crop_test_strip cv image_opt =
     (case image_opt of
        None \<Rightarrow> Inl invalid_image
      | Some img \<Rightarrow>
          if size_of img = 0 then Inl invalid_image
          else
            let height = height_of img;
                width = width_of img;
                image_area = height * width;
                metadata = \<lparr>success = False, original_size = (width, height),
                            detection_method = ''contour_detection'', message = '''',
                            bbox = None, cropped_size = None\<rparr>;
                contours = find_contours cv img
            in if contours = []
               then Inr (img, metadata\<lparr>message := ''No contours found in image''\<rparr>)
               else
                 case select_best cv image_area contours of
                   Inl e \<Rightarrow> Inl e
                 | Inr (best_contour, best_score) \<Rightarrow>
                     (case best_contour of
                        None \<Rightarrow>
                          Inr (img,
                               metadata\<lparr>message := ''No suitable test strip contour found''\<rparr>)
                      | Some b \<Rightarrow>
                          (case crop_box width height b of (x1, y1, x2, y2) \<Rightarrow>
                             let cropped = slice2 img y1 y2 x1 x2
                             in Inr (cropped,
                                     metadata\<lparr>success := True,
                                       bbox := Some (x1, y1, x2 - x1, y2 - y1),
                                       cropped_size := Some (x2 - x1, y2 - y1),
                                       message :=
                                         ''Test strip successfully detected and cropped''\<rparr>))))"

subsection \<open>The filters and the score as plain functions\<close>

text \<open>
  The conditions of lines 142-151 and the score of lines 155-161 once more, without the
  exception plumbing. For a non-zero image area they are what \<open>filter_contour\<close> and
  \<open>score_contour\<close> compute (lemmas \<open>filter_contour_eq\<close> and \<open>score_contour_eq\<close> below).
\<close>

definition area_ratio_of :: "('g, 'c) cv2 \<Rightarrow> int \<Rightarrow> 'c \<Rightarrow> real" where
  "area_ratio_of cv image_area c =
     (case boundingRect cv c of (x, y, w, h) \<Rightarrow> real_of_int (w * h) / real_of_int image_area)"

definition aspect_ratio_of :: "('g, 'c) cv2 \<Rightarrow> 'c \<Rightarrow> real" where
  "aspect_ratio_of cv c =
     (case boundingRect cv c of (x, y, w, h) \<Rightarrow>
        if w > 0 then real_of_int h / real_of_int w else 0)"

definition passes_filters :: "('g, 'c) cv2 \<Rightarrow> int \<Rightarrow> 'c \<Rightarrow> bool" where
  "passes_filters cv image_area c =
     (\<not> (area_ratio_of cv image_area c < MIN_AREA_RATIO \<or>
         area_ratio_of cv image_area c > MAX_AREA_RATIO) \<and>
      \<not> (aspect_ratio_of cv c < MIN_ASPECT_RATIO \<or> aspect_ratio_of cv c > MAX_ASPECT_RATIO))"

definition score_of :: "('g, 'c) cv2 \<Rightarrow> int \<Rightarrow> 'c \<Rightarrow> real" where
  "score_of cv image_area c =
     (case boundingRect cv c of (x, y, w, h) \<Rightarrow>
        area_ratio_of cv image_area c *
        (if w * h > 0 then contourArea cv c / real_of_int (w * h) else 0))"

subsection \<open>Arrays of one channel\<close>

text \<open>
  The specification's image has three channels or one. \<open>image\<close> above is the array of three
  channels; an array of one channel has shape \<open>(height, width)\<close> and is the list of its rows of
  bytes. \<open>crop_test_strip_buffer\<close> is \<^verbatim>\<open>crop_test_strip\<close> on either kind of array:
  \<^item> line 73 is the same test, \<^verbatim>\<open>image.size\<close> being the product of the dimensions;
  \<^item> on three channels the pipeline is \<open>crop_test_strip\<close>, and the crop has three channels;
  \<^item> on one channel lines 77-86 have no effect that is seen, and line 93,
    \<^verbatim>\<open>cv2.cvtColor(image, cv2.COLOR_BGR2GRAY)\<close>, raises \<^verbatim>\<open>cv2.error\<close>: the conversion
    accepts three or four channels only, and the code calls it without looking at the
    number of channels.
\<close>

datatype buffer = Color image | Gray "8 word list list"

definition gray_size :: "8 word list list \<Rightarrow> int" where
  "gray_size g = int (length g) * (case g of [] \<Rightarrow> 0 | row # _ \<Rightarrow> int (length row))"

definition buffer_size :: "buffer \<Rightarrow> int" where
  "buffer_size b = (case b of Color img \<Rightarrow> size_of img | Gray g \<Rightarrow> gray_size g)"

definition crop_test_strip_buffer ::
  "('g, 'c) cv2 \<Rightarrow> buffer option \<Rightarrow> error + (buffer \<times> metadata)" where
  "crop_test_strip_buffer cv buffer_opt =
     (case buffer_opt of
        None \<Rightarrow> Inl invalid_image
      | Some b \<Rightarrow>
          if buffer_size b = 0 then Inl invalid_image
          else
            (case b of
               Gray g \<Rightarrow> Inl Cv2Error
             | Color img \<Rightarrow>
                 (case crop_test_strip cv (Some img) of
                    Inl e \<Rightarrow> Inl e
                  | Inr (cropped, metadata) \<Rightarrow> Inr (Color cropped, metadata))))"

subsection \<open>The loop with its arithmetic left open\<close>



subsection \<open>The filter as the specification words it\<close>

text \<open>
  The specification rejects a contour when \<open>contour_area / image_area\<close> is outside
  \<open>[0.01, 0.95]\<close> or when the aspect ratio \<open>h / w\<close>, taken as 0 for \<open>w = 0\<close>, is outside
  \<open>[1.5, 15.0]\<close>. These two definitions follow those words, not the code.
\<close>

definition spec_aspect_ratio :: "int \<Rightarrow> int \<Rightarrow> real" where
  "spec_aspect_ratio w h = (if w = 0 then 0 else real_of_int h / real_of_int w)"

definition spec_rejected :: "int \<Rightarrow> box \<Rightarrow> bool" where
  "spec_rejected image_area b =
     (case b of (x, y, w, h) \<Rightarrow>
        real_of_int (w * h) / real_of_int image_area \<notin> {0.01 .. 0.95} \<or>
        spec_aspect_ratio w h \<notin> {1.5 .. 15.0})"

subsection \<open>Line 73, the two metadata records, and two conditions on the primitives\<close>

text \<open>
  \<open>null_or_empty\<close> is the condition \<^verbatim>\<open>image is None or image.size == 0\<close>.
  \<open>failure_metadata\<close> is the dictionary of lines 81-86 with its message set (lines 124 and
  172); \<open>success_metadata\<close> is the dictionary after lines 191-194, for the corners
  \<open>(x1, y1, x2, y2)\<close>.
\<close>

definition null_or_empty :: "image option \<Rightarrow> bool" where
  "null_or_empty image_opt = (case image_opt of None \<Rightarrow> True | Some img \<Rightarrow> size_of img = 0)"

definition failure_metadata :: "image \<Rightarrow> string \<Rightarrow> metadata" where
  "failure_metadata img msg =
     \<lparr>success = False, original_size = (width_of img, height_of img),
      detection_method = ''contour_detection'', message = msg,
      bbox = None, cropped_size = None\<rparr>"

definition success_metadata :: "image \<Rightarrow> box \<Rightarrow> metadata" where
  "success_metadata img corners =
     (case corners of (x1, y1, x2, y2) \<Rightarrow>
        \<lparr>success = True, original_size = (width_of img, height_of img),
         detection_method = ''contour_detection'',
         message = ''Test strip successfully detected and cropped'',
         bbox = Some (x1, y1, x2 - x1, y2 - y1), cropped_size = Some (x2 - x1, y2 - y1)\<rparr>)"

text \<open>
  \<open>boxes_within\<close>: every bounding box that \<^verbatim>\<open>cv2.boundingRect\<close> reports for a contour of
  the image lies inside the image. OpenCV traces contours through pixels of the edge map,
  which has the size of the image, so its boxes do.
  \<open>same_contours\<close>: two runs of the primitives on one buffer return the same contours, with
  the same boxes and areas.
\<close>

definition boxes_within :: "('g, 'c) cv2 \<Rightarrow> image \<Rightarrow> bool" where
  "boxes_within cv img =
     (\<forall>c \<in> set (find_contours cv img).
        case boundingRect cv c of (x, y, w, h) \<Rightarrow>
          0 \<le> x \<and> 0 \<le> y \<and> x + w \<le> width_of img \<and> y + h \<le> height_of img)"

definition same_contours :: "('g, 'c) cv2 \<Rightarrow> ('k, 'c) cv2 \<Rightarrow> image \<Rightarrow> bool" where
  "same_contours cv cv' img =
     (find_contours cv img = find_contours cv' img \<and>
      (\<forall>c \<in> set (find_contours cv img).
         boundingRect cv c = boundingRect cv' c \<and> contourArea cv c = contourArea cv' c))"

subsection \<open>Concrete inputs\<close>

text \<open>
  Primitives that report a fixed list of contours, each given by its bounding box and its
  enclosed area, and images of one colour.
  \<^item> \<open>strip_cv\<close>: one contour, box \<open>(100, 100, 50, 300)\<close>, enclosed area 14000.
  \<^item> \<open>tie_cv\<close>: two congruent rectangles, at \<open>x = 10\<close> and at \<open>x = 200\<close>.
  \<^item> \<open>edge_cv\<close>: one contour whose box touches \<open>x = 0\<close>, 100 wide (margin 5).
  \<^item> \<open>thin_cv\<close>: what a horizontal intensity step gives in an image one pixel wide. The
    dilated edge is a column of 5 pixels, its contour the two end points \<open>(0, 10)\<close> and
    \<open>(0, 14)\<close>: the bounding box is \<open>(0, 10, 1, 5)\<close> and the enclosed area 0.
  \<^item> \<open>blank_cv\<close>: no contour at all.
\<close>

definition fixed_cv :: "(box \<times> real) list \<Rightarrow> (unit, box \<times> real) cv2" where
  "fixed_cv cs =
     \<lparr>cvtColor = (\<lambda>_. ()), GaussianBlur = (\<lambda>g _ _. g), Canny = (\<lambda>g _ _. g),
      dilate = (\<lambda>g _ _. g), findContours = (\<lambda>_. cs), boundingRect = fst, contourArea = snd\<rparr>"

definition blank_image :: "nat \<Rightarrow> nat \<Rightarrow> image" where
  "blank_image height width = replicate height (replicate width (0, 0, 0))"

definition strip_cv :: "(unit, box \<times> real) cv2" where
  "strip_cv = fixed_cv [((100, 100, 50, 300), 14000)]"

definition strip_cv_alt :: "(unit, box \<times> real) cv2" where
  "strip_cv_alt = strip_cv\<lparr>contourArea := (\<lambda>c. if fst c = (100, 100, 50, 300) then 14000 else 7)\<rparr>"


definition edge_cv :: "(unit, box \<times> real) cv2" where
  "edge_cv = fixed_cv [((0, 100, 100, 300), 30000)]"

definition thin_cv :: "(unit, box \<times> real) cv2" where
  "thin_cv = fixed_cv [((0, 10, 1, 5), 0)]"

definition blank_cv :: "(unit, box \<times> real) cv2" where
  "blank_cv = fixed_cv []"


definition gray_pixel :: buffer where
  "gray_pixel = Gray [[0]]"

definition strip_image :: image where
  "strip_image = blank_image 500 300"

definition edge_image :: image where
  "edge_image = blank_image 500 300"

definition thin_image :: image where
  "thin_image = blank_image 200 1"

section \<open>Properties of the stages\<close>

subsection \<open>The loop\<close>

lemma filter_contour_eq:
  assumes "image_area \<noteq> 0"
  shows "filter_contour cv image_area c =
         Inr (if passes_filters cv image_area c
              then Some (boundingRect cv c, area_ratio_of cv image_area c) else None)"
  using assms
  by (cases "boundingRect cv c")
     (simp add: filter_contour_def passes_filters_def area_ratio_of_def aspect_ratio_of_def
        truediv_def Let_def)

lemma score_contour_eq:
  "score_contour cv c (boundingRect cv c) (area_ratio_of cv image_area c) =
   Inr (score_of cv image_area c)"
  by (cases "boundingRect cv c") (simp add: score_contour_def score_of_def truediv_def Let_def)

lemma loop_body_eq:
  assumes "image_area \<noteq> 0"
  shows "loop_body cv image_area c (b, s) =
         Inr (if passes_filters cv image_area c \<and> s < score_of cv image_area c
              then (Some (boundingRect cv c), score_of cv image_area c) else (b, s))"
  by (simp add: loop_body_def filter_contour_eq [OF assms] score_contour_eq)

lemma contour_loop_total:
  assumes "image_area \<noteq> 0"
  shows "\<exists>st'. contour_loop cv image_area cs st = Inr st'"
proof (induction cs arbitrary: st)
  case Nil
  show ?case by simp
next
  case (Cons c cs)
  obtain b s where st: "st = (b, s)" by (cases st)
  show ?case using Cons.IH by (simp add: st loop_body_eq [OF assms])
qed

lemma contour_loop_char:
  assumes "image_area \<noteq> 0" and "contour_loop cv image_area cs (b, s) = Inr (b', s')"
  shows "(b' = b \<and> s' = s \<and>
          (\<forall>c \<in> set cs. passes_filters cv image_area c \<longrightarrow> score_of cv image_area c \<le> s)) \<or>
         (\<exists>earlier c later. cs = earlier @ c # later \<and> passes_filters cv image_area c \<and>
            b' = Some (boundingRect cv c) \<and> s' = score_of cv image_area c \<and> s < s' \<and>
            (\<forall>d \<in> set earlier. passes_filters cv image_area d \<longrightarrow> score_of cv image_area d < s') \<and>
            (\<forall>d \<in> set later. passes_filters cv image_area d \<longrightarrow> score_of cv image_area d \<le> s'))"
  using assms(2)
proof (induction cs arbitrary: b s)
  case Nil
  then show ?case by simp
next
  case (Cons c cs)
  let ?P = "passes_filters cv image_area"
  let ?sc = "score_of cv image_area"
  show ?case
  proof (cases "?P c \<and> s < ?sc c")
    case True
    with Cons.prems have run: "contour_loop cv image_area cs (Some (boundingRect cv c), ?sc c) = Inr (b', s')"
      by (simp add: loop_body_eq [OF assms(1)])
    from Cons.IH [OF run] show ?thesis
    proof (elim disjE exE conjE)
      assume "b' = Some (boundingRect cv c)" "s' = ?sc c"
        and "\<forall>d \<in> set cs. ?P d \<longrightarrow> ?sc d \<le> ?sc c"
      with True have "c # cs = [] @ c # cs \<and> ?P c \<and> b' = Some (boundingRect cv c) \<and> s' = ?sc c \<and> s < s' \<and>
         (\<forall>d \<in> set []. ?P d \<longrightarrow> ?sc d < s') \<and> (\<forall>d \<in> set cs. ?P d \<longrightarrow> ?sc d \<le> s')"
        by simp
      then show ?thesis by blast
    next
      fix earlier d later
      assume h: "cs = earlier @ d # later" "?P d" "b' = Some (boundingRect cv d)" "s' = ?sc d"
        "?sc c < s'" "\<forall>e \<in> set earlier. ?P e \<longrightarrow> ?sc e < s'" "\<forall>e \<in> set later. ?P e \<longrightarrow> ?sc e \<le> s'"
      with True have "c # cs = (c # earlier) @ d # later \<and> ?P d \<and> b' = Some (boundingRect cv d) \<and> s' = ?sc d \<and> s < s' \<and>
         (\<forall>e \<in> set (c # earlier). ?P e \<longrightarrow> ?sc e < s') \<and> (\<forall>e \<in> set later. ?P e \<longrightarrow> ?sc e \<le> s')"
        by auto
      then show ?thesis by blast
    qed
  next
    case False
    with Cons.prems have run: "contour_loop cv image_area cs (b, s) = Inr (b', s')"
      by (simp add: loop_body_eq [OF assms(1)] split: if_splits)
    from Cons.IH [OF run] show ?thesis
    proof (elim disjE exE conjE)
      assume "b' = b" "s' = s" "\<forall>d \<in> set cs. ?P d \<longrightarrow> ?sc d \<le> s"
      with False show ?thesis by auto
    next
      fix earlier d later
      assume h: "cs = earlier @ d # later" "?P d" "b' = Some (boundingRect cv d)" "s' = ?sc d"
        "s < s'" "\<forall>e \<in> set earlier. ?P e \<longrightarrow> ?sc e < s'" "\<forall>e \<in> set later. ?P e \<longrightarrow> ?sc e \<le> s'"
      with False have "c # cs = (c # earlier) @ d # later \<and> ?P d \<and> b' = Some (boundingRect cv d) \<and> s' = ?sc d \<and> s < s' \<and>
         (\<forall>e \<in> set (c # earlier). ?P e \<longrightarrow> ?sc e < s') \<and> (\<forall>e \<in> set later. ?P e \<longrightarrow> ?sc e \<le> s')"
        by auto
      then show ?thesis by blast
    qed
  qed
qed

subsection \<open>Margins and the specification's filter\<close>

lemma py_int_margin:
  "0 \<le> w \<Longrightarrow> py_int (real_of_int w * CROP_MARGIN_PERCENT) = \<lfloor>real_of_int w * 0.05\<rfloor>"
  by (simp add: py_int_def CROP_MARGIN_PERCENT_def)

lemma margin_div: "\<lfloor>real_of_int w * 0.05\<rfloor> = w div 20"
proof -
  have "real_of_int w * 0.05 = real_of_int w / real_of_int 20" by simp
  then show ?thesis by (simp only: floor_divide_of_int_eq)
qed

lemma margin_eq: "0 \<le> w \<Longrightarrow> py_int (real_of_int w * CROP_MARGIN_PERCENT) = w div 20"
  using py_int_margin [of w] margin_div [of w] by simp

lemma margin_nonneg: "0 \<le> w \<Longrightarrow> 0 \<le> py_int (real_of_int w * CROP_MARGIN_PERCENT)"
  by (simp add: margin_eq)

lemma filter_spec:
  assumes "0 < image_area" and "boundingRect cv c = (x, y, w, h)" and "0 \<le> w"
  shows "filter_contour cv image_area c =
           Inr (if spec_rejected image_area (x, y, w, h) then None
                else Some ((x, y, w, h), real_of_int (w * h) / real_of_int image_area))"
  using assms
  by (auto simp add: filter_contour_def spec_rejected_def spec_aspect_ratio_def truediv_def
        Let_def MIN_AREA_RATIO_def MAX_AREA_RATIO_def MIN_ASPECT_RATIO_def MAX_ASPECT_RATIO_def)

lemma w0_rejected:
  "spec_rejected image_area (x, y, 0, h)"
  by (simp add: spec_rejected_def)

subsection \<open>The three exits of the pipeline\<close>

lemma size_area_nz: "size_of img \<noteq> 0 \<Longrightarrow> height_of img * width_of img \<noteq> 0"
  by (simp add: size_of_def)

lemma select_best_total:
  "image_area \<noteq> 0 \<Longrightarrow> \<exists>b s. select_best cv image_area cs = Inr (b, s)"
  using contour_loop_total [of image_area cv cs "(None, 0)"] by (auto simp add: select_best_def)

lemma select_best_char:
  assumes "image_area \<noteq> 0" and "select_best cv image_area cs = Inr (b', s')"
  shows "(b' = None \<and> s' = 0 \<and>
          (\<forall>c \<in> set cs. passes_filters cv image_area c \<longrightarrow> score_of cv image_area c \<le> 0)) \<or>
         (\<exists>earlier c later. cs = earlier @ c # later \<and> passes_filters cv image_area c \<and>
            b' = Some (boundingRect cv c) \<and> s' = score_of cv image_area c \<and> 0 < s' \<and>
            (\<forall>d \<in> set earlier. passes_filters cv image_area d \<longrightarrow> score_of cv image_area d < s') \<and>
            (\<forall>d \<in> set later. passes_filters cv image_area d \<longrightarrow> score_of cv image_area d \<le> s'))"
  using contour_loop_char [OF assms(1), of cv cs None 0 b' s'] assms(2)
  unfolding select_best_def by blast

lemma select_best_None_iff:
  assumes "image_area \<noteq> 0"
  shows "(\<exists>s. select_best cv image_area cs = Inr (None, s)) \<longleftrightarrow>
         \<not> (\<exists>c \<in> set cs. passes_filters cv image_area c \<and> 0 < score_of cv image_area c)"
proof -
  obtain b s where run: "select_best cv image_area cs = Inr (b, s)"
    using select_best_total [OF assms] by blast
  from select_best_char [OF assms run] show ?thesis
  proof
    assume "b = None \<and> s = 0 \<and>
      (\<forall>c \<in> set cs. passes_filters cv image_area c \<longrightarrow> score_of cv image_area c \<le> 0)"
    then show ?thesis using run by fastforce
  next
    assume "\<exists>earlier c later. cs = earlier @ c # later \<and> passes_filters cv image_area c \<and>
            b = Some (boundingRect cv c) \<and> s = score_of cv image_area c \<and> 0 < s \<and>
            (\<forall>d \<in> set earlier. passes_filters cv image_area d \<longrightarrow> score_of cv image_area d < s) \<and>
            (\<forall>d \<in> set later. passes_filters cv image_area d \<longrightarrow> score_of cv image_area d \<le> s)"
    then obtain earlier c later where
      h: "cs = earlier @ c # later" "passes_filters cv image_area c"
         "b = Some (boundingRect cv c)" "s = score_of cv image_area c" "0 < s"
      by blast
    from h have "c \<in> set cs \<and> passes_filters cv image_area c \<and> 0 < score_of cv image_area c"
      by simp
    moreover from h run have "\<not> (\<exists>s. select_best cv image_area cs = Inr (None, s))" by simp
    ultimately show ?thesis by blast
  qed
qed

lemma crop_empty_contours:
  assumes "size_of img \<noteq> 0" and "find_contours cv img = []"
  shows "crop_test_strip cv (Some img) =
         Inr (img, failure_metadata img ''No contours found in image'')"
  using assms by (simp add: crop_test_strip_def failure_metadata_def Let_def)

lemma crop_no_candidate:
  assumes "size_of img \<noteq> 0" and "find_contours cv img \<noteq> []"
    and "select_best cv (height_of img * width_of img) (find_contours cv img) = Inr (None, s)"
  shows "crop_test_strip cv (Some img) =
         Inr (img, failure_metadata img ''No suitable test strip contour found'')"
  using assms by (simp add: crop_test_strip_def failure_metadata_def Let_def)

lemma crop_winner:
  assumes "size_of img \<noteq> 0" and "find_contours cv img \<noteq> []"
    and "select_best cv (height_of img * width_of img) (find_contours cv img) = Inr (Some b, s)"
    and "crop_box (width_of img) (height_of img) b = (x1, y1, x2, y2)"
  shows "crop_test_strip cv (Some img) =
         Inr (slice2 img y1 y2 x1 x2, success_metadata img (x1, y1, x2, y2))"
  using assms by (simp add: crop_test_strip_def success_metadata_def Let_def)

lemma crop_cases:
  assumes "size_of img \<noteq> 0"
  shows "(find_contours cv img = [] \<and>
          crop_test_strip cv (Some img) =
            Inr (img, failure_metadata img ''No contours found in image'')) \<or>
         (find_contours cv img \<noteq> [] \<and>
          (\<exists>s. select_best cv (height_of img * width_of img) (find_contours cv img) = Inr (None, s)) \<and>
          crop_test_strip cv (Some img) =
            Inr (img, failure_metadata img ''No suitable test strip contour found'')) \<or>
         (find_contours cv img \<noteq> [] \<and>
          (\<exists>b s x1 y1 x2 y2.
             select_best cv (height_of img * width_of img) (find_contours cv img) = Inr (Some b, s) \<and>
             crop_box (width_of img) (height_of img) b = (x1, y1, x2, y2) \<and>
             crop_test_strip cv (Some img) =
               Inr (slice2 img y1 y2 x1 x2, success_metadata img (x1, y1, x2, y2))))"
proof (cases "find_contours cv img = []")
  case True
  then show ?thesis using crop_empty_contours [OF assms] by blast
next
  case False
  obtain b s where
    run: "select_best cv (height_of img * width_of img) (find_contours cv img) = Inr (b, s)"
    using select_best_total [OF size_area_nz [OF assms]] by blast
  show ?thesis
  proof (cases b)
    case None
    with run False crop_no_candidate [OF assms False] show ?thesis by blast
  next
    case (Some bx)
    obtain x1 y1 x2 y2 where cb: "crop_box (width_of img) (height_of img) bx = (x1, y1, x2, y2)"
      by (cases "crop_box (width_of img) (height_of img) bx")
    from crop_winner [OF assms False _ cb] run Some False cb show ?thesis by blast
  qed
qed

subsection \<open>Evaluation on the concrete inputs\<close>

lemma height_blank: "height_of (blank_image h w) = int h"
  by (simp add: height_of_def blank_image_def)

lemma width_blank: "0 < h \<Longrightarrow> width_of (blank_image h w) = int w"
  by (cases h) (simp_all add: width_of_def blank_image_def)

lemma size_blank: "0 < h \<Longrightarrow> size_of (blank_image h w) = int h * int w * 3"
  by (simp add: size_of_def height_blank width_blank)

lemma rectangular_blank: "rectangular (blank_image h w)"
  by (cases h) (simp_all add: rectangular_def width_of_def blank_image_def)

lemma strip_image_dims:
  "height_of strip_image = 500" "width_of strip_image = 300" "size_of strip_image \<noteq> 0"
  "rectangular strip_image"
  by (simp_all add: strip_image_def height_blank width_blank size_blank rectangular_blank)

lemma thin_image_dims:
  "height_of thin_image = 200" "width_of thin_image = 1" "size_of thin_image \<noteq> 0"
  "rectangular thin_image"
  by (simp_all add: thin_image_def height_blank width_blank size_blank rectangular_blank)

lemma edge_image_dims:
  "height_of edge_image = 500" "width_of edge_image = 300" "size_of edge_image \<noteq> 0"
  "rectangular edge_image"
  by (simp_all add: edge_image_def height_blank width_blank size_blank rectangular_blank)

lemma find_fixed: "find_contours (fixed_cv cs) img = cs"
  by (simp add: find_contours_def fixed_cv_def)

lemma bounding_fixed: "boundingRect (fixed_cv cs) c = fst c"
  by (simp add: fixed_cv_def)

lemma area_fixed: "contourArea (fixed_cv cs) c = snd c"
  by (simp add: fixed_cv_def)

lemmas run_defs = select_best_def loop_body_def filter_contour_def score_contour_def
  truediv_def bounding_fixed area_fixed MIN_AREA_RATIO_def MAX_AREA_RATIO_def
  MIN_ASPECT_RATIO_def MAX_ASPECT_RATIO_def Let_def

lemma strip_select:
  "select_best strip_cv 150000 [((100, 100, 50, 300), 14000)] =
   Inr (Some (100, 100, 50, 300), 7 / 75)"
  by (simp add: strip_cv_def run_defs)


lemma edge_select:
  "select_best edge_cv 150000 [((0, 100, 100, 300), 30000)] =
   Inr (Some (0, 100, 100, 300), 1 / 5)"
  by (simp add: edge_cv_def run_defs)

lemma thin_select:
  "select_best thin_cv 200 [((0, 10, 1, 5), 0)] = Inr (None, 0)"
  by (simp add: thin_cv_def run_defs)

lemma thin_filter:
  "filter_contour thin_cv 200 ((0, 10, 1, 5), 0) = Inr (Some ((0, 10, 1, 5), 1 / 40))"
  by (simp add: thin_cv_def run_defs)

lemma edge_crop_box: "crop_box 300 500 (0, 100, 100, 300) = (0, 85, 105, 415)"
  using margin_eq [of 100] margin_eq [of 300] by (simp add: crop_box_def Let_def)

lemma strip_crop_box: "crop_box 300 500 (100, 100, 50, 300) = (98, 85, 152, 415)"
  using margin_eq [of 50] margin_eq [of 300] by (simp add: crop_box_def Let_def)

lemma strip_run:
  "crop_test_strip strip_cv (Some strip_image) =
   Inr (slice2 strip_image 85 415 98 152, success_metadata strip_image (98, 85, 152, 415))"
proof -
  have fc: "find_contours strip_cv strip_image = [((100, 100, 50, 300), 14000)]"
    by (simp add: strip_cv_def find_fixed)
  have ne: "find_contours strip_cv strip_image \<noteq> []" by (simp add: fc)
  have sel: "select_best strip_cv (height_of strip_image * width_of strip_image)
               (find_contours strip_cv strip_image) = Inr (Some (100, 100, 50, 300), 7 / 75)"
    using strip_select by (simp add: fc strip_image_dims)
  have cb: "crop_box (width_of strip_image) (height_of strip_image) (100, 100, 50, 300) =
            (98, 85, 152, 415)"
    using strip_crop_box by (simp add: strip_image_dims)
  show ?thesis by (rule crop_winner [OF strip_image_dims(3) ne sel cb])
qed

lemma thin_run:
  "crop_test_strip thin_cv (Some thin_image) =
   Inr (thin_image, failure_metadata thin_image ''No suitable test strip contour found'')"
proof -
  have fc: "find_contours thin_cv thin_image = [((0, 10, 1, 5), 0)]"
    by (simp add: thin_cv_def find_fixed)
  have ne: "find_contours thin_cv thin_image \<noteq> []" by (simp add: fc)
  have sel: "select_best thin_cv (height_of thin_image * width_of thin_image)
               (find_contours thin_cv thin_image) = Inr (None, 0)"
    using thin_select by (simp add: fc thin_image_dims)
  show ?thesis by (rule crop_no_candidate [OF thin_image_dims(3) ne sel])
qed

lemma edge_run:
  "crop_test_strip edge_cv (Some edge_image) =
   Inr (slice2 edge_image 85 415 0 105, success_metadata edge_image (0, 85, 105, 415))"
proof -
  have fc: "find_contours edge_cv edge_image = [((0, 100, 100, 300), 30000)]"
    by (simp add: edge_cv_def find_fixed)
  have ne: "find_contours edge_cv edge_image \<noteq> []" by (simp add: fc)
  have sel: "select_best edge_cv (height_of edge_image * width_of edge_image)
               (find_contours edge_cv edge_image) = Inr (Some (0, 100, 100, 300), 1 / 5)"
    using edge_select by (simp add: fc edge_image_dims)
  have cb: "crop_box (width_of edge_image) (height_of edge_image) (0, 100, 100, 300) =
            (0, 85, 105, 415)"
    using edge_crop_box by (simp add: edge_image_dims)
  show ?thesis by (rule crop_winner [OF edge_image_dims(3) ne sel cb])
qed

subsection \<open>The winner and its crop\<close>

lemma select_best_winner:
  assumes "image_area \<noteq> 0" and "select_best cv image_area cs = Inr (Some b, s)"
  shows "\<exists>c \<in> set cs. passes_filters cv image_area c \<and> b = boundingRect cv c \<and>
           s = score_of cv image_area c \<and> 0 < s"
  using select_best_char [OF assms] by auto

lemma passes_positive:
  assumes "passes_filters cv image_area c" and "boundingRect cv c = (x, y, w, h)"
  shows "0 < w \<and> 0 < h"
proof -
  from assms have a: "\<not> aspect_ratio_of cv c < 3 / 2"
    by (simp add: passes_filters_def MIN_ASPECT_RATIO_def)
  have w: "0 < w"
  proof (rule ccontr)
    assume "\<not> 0 < w"
    then have "aspect_ratio_of cv c = 0" using assms(2) by (simp add: aspect_ratio_of_def)
    with a show False by simp
  qed
  then have "aspect_ratio_of cv c = real_of_int h / real_of_int w"
    using assms(2) by (simp add: aspect_ratio_of_def)
  with a have "0 < real_of_int h / real_of_int w" by linarith
  with w have "0 < h" by (simp add: zero_less_divide_iff)
  with w show ?thesis by simp
qed

lemma crop_box_bounds:
  assumes "0 \<le> x" "0 \<le> y" "x + w \<le> width" "y + h \<le> height" "0 < w" "0 < h"
    and "crop_box width height (x, y, w, h) = (x1, y1, x2, y2)"
  shows "0 \<le> x1 \<and> x1 \<le> x \<and> x + w \<le> x2 \<and> x2 \<le> width \<and>
         0 \<le> y1 \<and> y1 \<le> y \<and> y + h \<le> y2 \<and> y2 \<le> height \<and> (x = 0 \<longrightarrow> x1 = 0)"
proof -
  define mx where "mx = py_int (real_of_int w * CROP_MARGIN_PERCENT)"
  define my where "my = py_int (real_of_int h * CROP_MARGIN_PERCENT)"
  have mx: "0 \<le> mx" unfolding mx_def using assms(5) by (simp add: margin_nonneg)
  have my: "0 \<le> my" unfolding my_def using assms(6) by (simp add: margin_nonneg)
  from assms(7) have c: "x1 = max 0 (x - mx)" "y1 = max 0 (y - my)"
    "x2 = min width (x + w + mx)" "y2 = min height (y + h + my)"
    by (simp_all add: crop_box_def Let_def mx_def my_def)
  have "0 \<le> x1 \<and> x1 \<le> x \<and> (x = 0 \<longrightarrow> x1 = 0)" using assms(1) mx unfolding c by linarith
  moreover have "x + w \<le> x2 \<and> x2 \<le> width" using assms(3) mx unfolding c by linarith
  moreover have "0 \<le> y1 \<and> y1 \<le> y" using assms(2) my unfolding c by linarith
  moreover have "y + h \<le> y2 \<and> y2 \<le> height" using assms(4) my unfolding c by linarith
  ultimately show ?thesis by blast
qed

lemma crop_success:
  assumes "crop_test_strip cv (Some img) = Inr (cropped, md)" and "success md"
  shows "\<exists>b s x1 y1 x2 y2. size_of img \<noteq> 0 \<and>
           select_best cv (height_of img * width_of img) (find_contours cv img) = Inr (Some b, s) \<and>
           crop_box (width_of img) (height_of img) b = (x1, y1, x2, y2) \<and>
           cropped = slice2 img y1 y2 x1 x2 \<and> md = success_metadata img (x1, y1, x2, y2)"
proof -
  have sz: "size_of img \<noteq> 0"
    using assms(1) by (auto simp add: crop_test_strip_def split: if_splits)
  from crop_cases [OF sz, of cv] show ?thesis
  proof (elim disjE conjE exE)
    assume "crop_test_strip cv (Some img) =
            Inr (img, failure_metadata img ''No contours found in image'')"
    with assms(1) have "md = failure_metadata img ''No contours found in image''" by auto
    then have "\<not> success md" by (simp add: failure_metadata_def)
    with assms(2) show ?thesis by contradiction
  next
    assume "crop_test_strip cv (Some img) =
            Inr (img, failure_metadata img ''No suitable test strip contour found'')"
    with assms(1) have "md = failure_metadata img ''No suitable test strip contour found''"
      by auto
    then have "\<not> success md" by (simp add: failure_metadata_def)
    with assms(2) show ?thesis by contradiction
  next
    fix b s x1 y1 x2 y2
    assume "select_best cv (height_of img * width_of img) (find_contours cv img) = Inr (Some b, s)"
      "crop_box (width_of img) (height_of img) b = (x1, y1, x2, y2)"
      "crop_test_strip cv (Some img) =
         Inr (slice2 img y1 y2 x1 x2, success_metadata img (x1, y1, x2, y2))"
    with assms(1) sz show ?thesis by simp
  qed
qed

lemma winner_geometry:
  assumes "boxes_within cv img"
    and "crop_test_strip cv (Some img) = Inr (cropped, md)" and "success md"
  shows "\<exists>x y w h s x1 y1 x2 y2.
           select_best cv (height_of img * width_of img) (find_contours cv img) =
             Inr (Some (x, y, w, h), s) \<and>
           crop_box (width_of img) (height_of img) (x, y, w, h) = (x1, y1, x2, y2) \<and>
           cropped = slice2 img y1 y2 x1 x2 \<and> md = success_metadata img (x1, y1, x2, y2) \<and>
           0 < w \<and> 0 < h \<and>
           0 \<le> x1 \<and> x1 \<le> x \<and> x + w \<le> x2 \<and> x2 \<le> width_of img \<and>
           0 \<le> y1 \<and> y1 \<le> y \<and> y + h \<le> y2 \<and> y2 \<le> height_of img \<and> (x = 0 \<longrightarrow> x1 = 0)"
proof -
  from crop_success [OF assms(2,3)] obtain b s x1 y1 x2 y2 where
    sz: "size_of img \<noteq> 0"
    and sel: "select_best cv (height_of img * width_of img) (find_contours cv img) = Inr (Some b, s)"
    and cb: "crop_box (width_of img) (height_of img) b = (x1, y1, x2, y2)"
    and out: "cropped = slice2 img y1 y2 x1 x2" "md = success_metadata img (x1, y1, x2, y2)"
    by blast
  obtain x y w h where b: "b = (x, y, w, h)" by (cases b)
  from select_best_winner [OF size_area_nz [OF sz] sel] obtain c where
    c: "c \<in> set (find_contours cv img)" "passes_filters cv (height_of img * width_of img) c"
       "b = boundingRect cv c"
    by blast
  from c(3) b have br: "boundingRect cv c = (x, y, w, h)" by simp
  from passes_positive [OF c(2) br] have pos: "0 < w" "0 < h" by simp_all
  from assms(1) c(1) br have inside: "0 \<le> x" "0 \<le> y" "x + w \<le> width_of img" "y + h \<le> height_of img"
    by (auto simp add: boxes_within_def)
  from crop_box_bounds [OF inside pos cb [unfolded b]] sel cb out pos show ?thesis
    unfolding b by blast
qed

subsection \<open>Slices\<close>

lemma length_py_slice:
  assumes "0 \<le> lo" "lo \<le> hi" "hi \<le> int (length xs)"
  shows "int (length (py_slice lo hi xs)) = hi - lo"
  using assms by (simp add: py_slice_def slice_bound_def Let_def)

lemma set_py_slice: "set (py_slice lo hi xs) \<subseteq> set xs"
  by (auto simp add: py_slice_def Let_def dest: in_set_takeD in_set_dropD)

lemma slice2_dims:
  assumes "rectangular img" "0 \<le> y1" "y1 < y2" "y2 \<le> height_of img"
    "0 \<le> x1" "x1 \<le> x2" "x2 \<le> width_of img"
  shows "height_of (slice2 img y1 y2 x1 x2) = y2 - y1 \<and>
         width_of (slice2 img y1 y2 x1 x2) = x2 - x1"
proof -
  have len: "int (length (py_slice y1 y2 img)) = y2 - y1"
    using assms by (simp add: length_py_slice height_of_def)
  then have h: "height_of (slice2 img y1 y2 x1 x2) = y2 - y1"
    by (simp add: height_of_def slice2_def)
  from len assms(3) obtain r rs where rows: "py_slice y1 y2 img = r # rs"
    by (cases "py_slice y1 y2 img") auto
  then have "r \<in> set img" using set_py_slice [of y1 y2 img] by auto
  with assms(1) have "int (length r) = width_of img" by (simp add: rectangular_def)
  with assms have "int (length (py_slice x1 x2 r)) = x2 - x1" by (simp add: length_py_slice)
  then have "width_of (slice2 img y1 y2 x1 x2) = x2 - x1"
    by (simp add: width_of_def slice2_def rows)
  with h show ?thesis by simp
qed

subsection \<open>Dependence on the primitives\<close>

lemma filter_contour_cong:
  assumes "boundingRect cv c = boundingRect cv' c"
  shows "filter_contour cv image_area c = filter_contour cv' image_area c"
  unfolding filter_contour_def assms ..

lemma score_contour_cong:
  assumes "contourArea cv c = contourArea cv' c"
  shows "score_contour cv c b r = score_contour cv' c b r"
  unfolding score_contour_def assms ..

lemma loop_body_cong:
  assumes "boundingRect cv c = boundingRect cv' c" "contourArea cv c = contourArea cv' c"
  shows "loop_body cv image_area c st = loop_body cv' image_area c st"
  unfolding loop_body_def filter_contour_cong [OF assms(1)] score_contour_cong [OF assms(2)] ..

lemma contour_loop_cong:
  assumes "\<forall>c \<in> set cs. boundingRect cv c = boundingRect cv' c \<and> contourArea cv c = contourArea cv' c"
  shows "contour_loop cv image_area cs st = contour_loop cv' image_area cs st"
  using assms
proof (induction cs arbitrary: st)
  case Nil
  show ?case by simp
next
  case (Cons c cs)
  have lb: "loop_body cv image_area c st = loop_body cv' image_area c st"
    using Cons.prems by (intro loop_body_cong) simp_all
  have ih: "contour_loop cv image_area cs st' = contour_loop cv' image_area cs st'" for st'
    using Cons.IH Cons.prems by simp
  show ?case
    by (cases "loop_body cv' image_area c st") (simp_all add: lb ih)
qed

subsection \<open>The loop for any arithmetic, and the pipeline on three channels\<close>





lemma crop_bgr_total:
  "(null_or_empty image_opt \<longrightarrow> crop_test_strip cv image_opt = Inl invalid_image) \<and>
   (\<not> null_or_empty image_opt \<longrightarrow> (\<exists>cropped md. crop_test_strip cv image_opt = Inr (cropped, md)))"
proof -
  have a: "null_or_empty image_opt \<longrightarrow> crop_test_strip cv image_opt = Inl invalid_image"
    by (cases image_opt) (simp_all add: null_or_empty_def crop_test_strip_def)
  have b: "\<not> null_or_empty image_opt \<longrightarrow>
           (\<exists>cropped md. crop_test_strip cv image_opt = Inr (cropped, md))"
  proof
    assume "\<not> null_or_empty image_opt"
    then obtain img where i: "image_opt = Some img" and sz: "size_of img \<noteq> 0"
      by (cases image_opt) (simp_all add: null_or_empty_def)
    from crop_cases [OF sz, of cv] show "\<exists>cropped md. crop_test_strip cv image_opt = Inr (cropped, md)"
      unfolding i by blast
  qed
  from a b show ?thesis by simp
qed

section \<open>The claims\<close>

subsection \<open>C1: when the filter stage selects\<close>

text \<open>
  Claim C1 as stated fails: a contour can pass the area filter and the aspect filter and
  still not be selected. The loop starts from \<open>best_score = 0\<close> and replaces the best
  contour only on \<open>score > best_score\<close>, so a contour of score 0 never wins. On the image
  one pixel wide of \<open>thin_cv\<close> the only contour passes both filters (area ratio 1/40,
  aspect ratio 5), its enclosed area is 0, and the pipeline reports
  "No suitable test strip contour found".
\<close>

theorem surviving_contour_not_selected:
  "find_contours thin_cv thin_image = [((0, 10, 1, 5), 0)] \<and>
   filter_contour thin_cv (height_of thin_image * width_of thin_image) ((0, 10, 1, 5), 0) =
     Inr (Some ((0, 10, 1, 5), 1 / 40)) \<and>
   crop_test_strip thin_cv (Some thin_image) =
     Inr (thin_image,
          \<lparr>success = False, original_size = (1, 200),
           detection_method = ''contour_detection'',
           message = ''No suitable test strip contour found'',
           bbox = None, cropped_size = None\<rparr>)"
proof -
  have "find_contours thin_cv thin_image = [((0, 10, 1, 5), 0)]"
    by (simp add: thin_cv_def find_fixed)
  moreover have "filter_contour thin_cv (height_of thin_image * width_of thin_image)
      ((0, 10, 1, 5), 0) = Inr (Some ((0, 10, 1, 5), 1 / 40))"
    using thin_filter by (simp add: thin_image_dims)
  moreover have "crop_test_strip thin_cv (Some thin_image) =
     Inr (thin_image,
          \<lparr>success = False, original_size = (1, 200),
           detection_method = ''contour_detection'',
           message = ''No suitable test strip contour found'',
           bbox = None, cropped_size = None\<rparr>)"
    using thin_run by (simp add: failure_metadata_def thin_image_dims)
  ultimately show ?thesis by blast
qed

text \<open>
  Claim C1, amended: for every non-empty image, the filter stage selects a winning box and
  the pipeline returns success exactly when some contour passes both filters with a score
  above 0; the failure "No suitable test strip contour found" occurs exactly when there
  are contours and none of them passes both filters with a score above 0.
\<close>

theorem success_iff_positive_score:
  assumes "size_of img \<noteq> 0"
  shows "((\<exists>c \<in> set (find_contours cv img).
             passes_filters cv (height_of img * width_of img) c \<and>
             0 < score_of cv (height_of img * width_of img) c) \<longleftrightarrow>
          (\<exists>b s cropped md.
             select_best cv (height_of img * width_of img) (find_contours cv img) = Inr (Some b, s) \<and>
             crop_test_strip cv (Some img) = Inr (cropped, md) \<and> success md)) \<and>
         ((\<exists>out md. crop_test_strip cv (Some img) = Inr (out, md) \<and>
             message md = ''No suitable test strip contour found'') \<longleftrightarrow>
          (find_contours cv img \<noteq> [] \<and>
           \<not> (\<exists>c \<in> set (find_contours cv img).
                 passes_filters cv (height_of img * width_of img) c \<and>
                 0 < score_of cv (height_of img * width_of img) c)))"
proof -
  let ?ia = "height_of img * width_of img"
  let ?cs = "find_contours cv img"
  let ?good = "\<exists>c \<in> set ?cs. passes_filters cv ?ia c \<and> 0 < score_of cv ?ia c"
  have nz: "?ia \<noteq> 0" by (rule size_area_nz [OF assms])
  have none: "(\<exists>s. select_best cv ?ia ?cs = Inr (None, s)) \<longleftrightarrow> \<not> ?good"
    by (rule select_best_None_iff [OF nz])
  from crop_cases [OF assms, of cv] show ?thesis
  proof (elim disjE conjE exE)
    assume e: "?cs = []"
      and r: "crop_test_strip cv (Some img) =
              Inr (img, failure_metadata img ''No contours found in image'')"
    from e have "\<not> ?good" by simp
    moreover from e have "select_best cv ?ia ?cs = Inr (None, 0)" by (simp add: select_best_def)
    ultimately show ?thesis using e r by (simp add: failure_metadata_def)
  next
    fix s
    assume e: "?cs \<noteq> []" and sel: "select_best cv ?ia ?cs = Inr (None, s)"
      and r: "crop_test_strip cv (Some img) =
              Inr (img, failure_metadata img ''No suitable test strip contour found'')"
    from sel none have "\<not> ?good" by blast
    then show ?thesis using e r sel by (simp add: failure_metadata_def)
  next
    fix b s x1 y1 x2 y2
    assume e: "?cs \<noteq> []" and sel: "select_best cv ?ia ?cs = Inr (Some b, s)"
      and r: "crop_test_strip cv (Some img) =
              Inr (slice2 img y1 y2 x1 x2, success_metadata img (x1, y1, x2, y2))"
    from sel none have g: "?good" by auto
    have m: "success (success_metadata img (x1, y1, x2, y2))"
      "message (success_metadata img (x1, y1, x2, y2)) \<noteq> ''No suitable test strip contour found''"
      by (simp_all add: success_metadata_def)
    from sel r m(1) have ok: "\<exists>b s cropped md.
             select_best cv ?ia ?cs = Inr (Some b, s) \<and>
             crop_test_strip cv (Some img) = Inr (cropped, md) \<and> success md"
      by blast
    from r m(2) have no: "\<not> (\<exists>out md. crop_test_strip cv (Some img) = Inr (out, md) \<and>
             message md = ''No suitable test strip contour found'')"
      by auto
    from g ok no show ?thesis by blast
  qed
qed

theorem success_iff_positive_score_witness:
  "size_of thin_image \<noteq> 0 \<and> size_of strip_image \<noteq> 0 \<and>
   \<not> (\<exists>c \<in> set (find_contours thin_cv thin_image).
         passes_filters thin_cv (height_of thin_image * width_of thin_image) c \<and>
         0 < score_of thin_cv (height_of thin_image * width_of thin_image) c) \<and>
   (\<exists>out md. crop_test_strip thin_cv (Some thin_image) = Inr (out, md) \<and>
      message md = ''No suitable test strip contour found'') \<and>
   (\<exists>c \<in> set (find_contours strip_cv strip_image).
      passes_filters strip_cv (height_of strip_image * width_of strip_image) c \<and>
      0 < score_of strip_cv (height_of strip_image * width_of strip_image) c) \<and>
   (\<exists>b s cropped md.
      select_best strip_cv (height_of strip_image * width_of strip_image)
        (find_contours strip_cv strip_image) = Inr (Some b, s) \<and>
      crop_test_strip strip_cv (Some strip_image) = Inr (cropped, md) \<and> success md)"
proof -
  have f: "find_contours thin_cv thin_image = [((0, 10, 1, 5), 0)]"
    by (simp add: thin_cv_def find_fixed)
  have z: "score_of thin_cv (height_of thin_image * width_of thin_image) ((0, 10, 1, 5), 0) = 0"
    by (simp add: score_of_def thin_cv_def bounding_fixed area_fixed)
  have n: "\<not> (\<exists>c \<in> set (find_contours thin_cv thin_image).
         passes_filters thin_cv (height_of thin_image * width_of thin_image) c \<and>
         0 < score_of thin_cv (height_of thin_image * width_of thin_image) c)"
    by (simp add: f z)
  have ne: "find_contours thin_cv thin_image \<noteq> []" by (simp add: f)
  from success_iff_positive_score [OF thin_image_dims(3), of thin_cv, THEN conjunct2] n ne
  have t: "\<exists>out md. crop_test_strip thin_cv (Some thin_image) = Inr (out, md) \<and>
      message md = ''No suitable test strip contour found''" by blast
  have g: "find_contours strip_cv strip_image = [((100, 100, 50, 300), 14000)]"
    by (simp add: strip_cv_def find_fixed)
  have p: "passes_filters strip_cv (height_of strip_image * width_of strip_image)
             ((100, 100, 50, 300), 14000)"
    by (simp add: passes_filters_def area_ratio_of_def aspect_ratio_of_def strip_cv_def
          bounding_fixed strip_image_dims MIN_AREA_RATIO_def MAX_AREA_RATIO_def
          MIN_ASPECT_RATIO_def MAX_ASPECT_RATIO_def)
  have q: "0 < score_of strip_cv (height_of strip_image * width_of strip_image)
             ((100, 100, 50, 300), 14000)"
    by (simp add: score_of_def area_ratio_of_def strip_cv_def bounding_fixed area_fixed
          strip_image_dims)
  from p q have y: "\<exists>c \<in> set (find_contours strip_cv strip_image).
      passes_filters strip_cv (height_of strip_image * width_of strip_image) c \<and>
      0 < score_of strip_cv (height_of strip_image * width_of strip_image) c"
    by (simp add: g)
  from success_iff_positive_score [OF strip_image_dims(3), of strip_cv, THEN conjunct1] y
  have u: "\<exists>b s cropped md.
      select_best strip_cv (height_of strip_image * width_of strip_image)
        (find_contours strip_cv strip_image) = Inr (Some b, s) \<and>
      crop_test_strip strip_cv (Some strip_image) = Inr (cropped, md) \<and> success md"
    by blast
  from thin_image_dims(3) strip_image_dims(3) n t y u show ?thesis by blast
qed

subsection \<open>C2: the first contour of greatest score wins\<close>



subsection \<open>C3: the returned box lies in the image\<close>

text \<open>
  Claim C3: when the bounding boxes of the contours lie inside the image, every successful
  run returns a box \<open>(x1, y1, x2 - x1, y2 - y1)\<close> with \<open>0 \<le> x1 \<le> x2 \<le> width\<close> and
  \<open>0 \<le> y1 \<le> y2 \<le> height\<close>; and when the winning box touches \<open>x = 0\<close>, \<open>x1\<close> is 0,
  whatever the margin.
\<close>

theorem bbox_within_image:
  assumes "boxes_within cv img"
    and "crop_test_strip cv (Some img) = Inr (cropped, md)" and "success md"
  shows "\<exists>x y w h s x1 y1 x2 y2.
           select_best cv (height_of img * width_of img) (find_contours cv img) =
             Inr (Some (x, y, w, h), s) \<and>
           bbox md = Some (x1, y1, x2 - x1, y2 - y1) \<and>
           0 \<le> x1 \<and> x1 \<le> x2 \<and> x2 \<le> width_of img \<and>
           0 \<le> y1 \<and> y1 \<le> y2 \<and> y2 \<le> height_of img \<and> (x = 0 \<longrightarrow> x1 = 0)"
proof -
  from winner_geometry [OF assms] obtain x y w h s x1 y1 x2 y2 where
    g: "select_best cv (height_of img * width_of img) (find_contours cv img) =
             Inr (Some (x, y, w, h), s)"
       "md = success_metadata img (x1, y1, x2, y2)" "0 < w" "0 < h"
       "0 \<le> x1" "x1 \<le> x" "x + w \<le> x2" "x2 \<le> width_of img"
       "0 \<le> y1" "y1 \<le> y" "y + h \<le> y2" "y2 \<le> height_of img" "x = 0 \<longrightarrow> x1 = 0"
    by blast
  have bb: "bbox md = Some (x1, y1, x2 - x1, y2 - y1)"
    by (simp add: g(2) success_metadata_def)
  have "x1 \<le> x2" "y1 \<le> y2" using g by linarith+
  with g bb show ?thesis by blast
qed

theorem bbox_within_image_witness:
  "boxes_within edge_cv edge_image \<and>
   crop_test_strip edge_cv (Some edge_image) =
     Inr (slice2 edge_image 85 415 0 105, success_metadata edge_image (0, 85, 105, 415)) \<and>
   success (success_metadata edge_image (0, 85, 105, 415)) \<and>
   (\<exists>x1 y1 x2 y2.
      bbox (success_metadata edge_image (0, 85, 105, 415)) = Some (x1, y1, x2 - x1, y2 - y1) \<and>
      x1 = 0 \<and> x1 \<le> x2 \<and> x2 \<le> width_of edge_image \<and>
      0 \<le> y1 \<and> y1 \<le> y2 \<and> y2 \<le> height_of edge_image)"
proof -
  have w: "boxes_within edge_cv edge_image"
    by (simp add: boxes_within_def edge_cv_def find_fixed bounding_fixed edge_image_dims)
  have s: "success (success_metadata edge_image (0, 85, 105, 415))"
    by (simp add: success_metadata_def)
  have sel: "select_best edge_cv (height_of edge_image * width_of edge_image)
               (find_contours edge_cv edge_image) = Inr (Some (0, 100, 100, 300), 1 / 5)"
    using edge_select by (simp add: edge_cv_def find_fixed edge_image_dims)
  from bbox_within_image [OF w edge_run s] obtain x y w' h sc x1 y1 x2 y2 where
    g: "select_best edge_cv (height_of edge_image * width_of edge_image)
          (find_contours edge_cv edge_image) = Inr (Some (x, y, w', h), sc)"
       "bbox (success_metadata edge_image (0, 85, 105, 415)) = Some (x1, y1, x2 - x1, y2 - y1)"
       "x1 \<le> x2" "x2 \<le> width_of edge_image" "0 \<le> y1" "y1 \<le> y2"
       "y2 \<le> height_of edge_image" "x = 0 \<longrightarrow> x1 = 0"
    by blast
  from g(1) sel have "x = 0" by simp
  with g(8) have "x1 = 0" by simp
  with g(2-7) w edge_run s show ?thesis by blast
qed

subsection \<open>C4: margins and corners\<close>

text \<open>
  Claim C4: for a winning box \<open>(x, y, w, h)\<close> with \<open>w\<close> and \<open>h\<close> not negative the margins
  are \<open>\<lfloor>w * 0.05\<rfloor>\<close> and \<open>\<lfloor>h * 0.05\<rfloor>\<close> and the corners are
  \<open>x1 = max 0 (x - margin_x)\<close>, \<open>y1 = max 0 (y - margin_y)\<close>,
  \<open>x2 = min width (x + w + margin_x)\<close>, \<open>y2 = min height (y + h + margin_y)\<close>; the box
  \<open>(100, 100, 50, 300)\<close> in an image 300 wide and 500 high gives \<open>(98, 85, 152, 415)\<close>.
\<close>

theorem crop_box_formula:
  "(0 \<le> w \<and> 0 \<le> h \<longrightarrow>
     crop_box width height (x, y, w, h) =
       (max 0 (x - \<lfloor>real_of_int w * 0.05\<rfloor>), max 0 (y - \<lfloor>real_of_int h * 0.05\<rfloor>),
        min width (x + w + \<lfloor>real_of_int w * 0.05\<rfloor>),
        min height (y + h + \<lfloor>real_of_int h * 0.05\<rfloor>))) \<and>
   crop_box 300 500 (100, 100, 50, 300) = (98, 85, 152, 415)"
proof
  show "0 \<le> w \<and> 0 \<le> h \<longrightarrow>
     crop_box width height (x, y, w, h) =
       (max 0 (x - \<lfloor>real_of_int w * 0.05\<rfloor>), max 0 (y - \<lfloor>real_of_int h * 0.05\<rfloor>),
        min width (x + w + \<lfloor>real_of_int w * 0.05\<rfloor>),
        min height (y + h + \<lfloor>real_of_int h * 0.05\<rfloor>))"
    by (simp add: crop_box_def Let_def py_int_margin)
  have "py_int (50 * CROP_MARGIN_PERCENT) = 2"
    using py_int_margin [of 50] margin_div [of 50] by simp
  moreover have "py_int (300 * CROP_MARGIN_PERCENT) = 15"
    using py_int_margin [of 300] margin_div [of 300] by simp
  ultimately show "crop_box 300 500 (100, 100, 50, 300) = (98, 85, 152, 415)"
    by (simp add: crop_box_def Let_def)
qed

theorem crop_box_formula_witness:
  "(0::int) \<le> 50 \<and> (0::int) \<le> 300 \<and>
   crop_box 300 500 (100, 100, 50, 300) =
     (max 0 (100 - \<lfloor>real_of_int 50 * 0.05\<rfloor>), max 0 (100 - \<lfloor>real_of_int 300 * 0.05\<rfloor>),
      min 300 (100 + 50 + \<lfloor>real_of_int 50 * 0.05\<rfloor>),
      min 500 (100 + 300 + \<lfloor>real_of_int 300 * 0.05\<rfloor>))"
  using crop_box_formula [of 50 300 300 500 100 100] by simp

subsection \<open>C5: a failed detection returns the input\<close>

text \<open>
  Claim C5: for a non-empty image, the exit on an empty contour list returns the input
  buffer with \<open>success = False\<close> and the message "No contours found in image"; the exit
  on an empty selection returns the input buffer with \<open>success = False\<close> and the message
  "No suitable test strip contour found"; and every result without success is one of
  the two, so its buffer is the input.
\<close>

theorem failure_returns_input:
  assumes "size_of img \<noteq> 0"
  shows "(find_contours cv img = [] \<longrightarrow>
            crop_test_strip cv (Some img) =
              Inr (img, failure_metadata img ''No contours found in image'')) \<and>
         (find_contours cv img \<noteq> [] \<and>
          (\<exists>s. select_best cv (height_of img * width_of img) (find_contours cv img) = Inr (None, s)) \<longrightarrow>
            crop_test_strip cv (Some img) =
              Inr (img, failure_metadata img ''No suitable test strip contour found'')) \<and>
         (\<forall>out md. crop_test_strip cv (Some img) = Inr (out, md) \<and> \<not> success md \<longrightarrow>
            out = img \<and>
            (md = failure_metadata img ''No contours found in image'' \<or>
             md = failure_metadata img ''No suitable test strip contour found'')) \<and>
         (\<forall>msg. \<not> success (failure_metadata img msg) \<and> message (failure_metadata img msg) = msg)"
proof (intro conjI impI allI)
  assume "find_contours cv img = []"
  then show "crop_test_strip cv (Some img) =
              Inr (img, failure_metadata img ''No contours found in image'')"
    by (rule crop_empty_contours [OF assms])
next
  assume "find_contours cv img \<noteq> [] \<and>
          (\<exists>s. select_best cv (height_of img * width_of img) (find_contours cv img) = Inr (None, s))"
  then show "crop_test_strip cv (Some img) =
              Inr (img, failure_metadata img ''No suitable test strip contour found'')"
    using crop_no_candidate [OF assms] by blast
next
  fix out md
  assume a: "crop_test_strip cv (Some img) = Inr (out, md) \<and> \<not> success md"
  have s: "success (success_metadata img c)" for c
    by (cases c) (simp add: success_metadata_def)
  from crop_cases [OF assms, of cv] a s
  have "(out, md) = (img, failure_metadata img ''No contours found in image'') \<or>
        (out, md) = (img, failure_metadata img ''No suitable test strip contour found'')"
    by (elim disjE conjE exE) auto
  then show "out = img" by auto
  from \<open>(out, md) = (img, failure_metadata img ''No contours found in image'') \<or>
        (out, md) = (img, failure_metadata img ''No suitable test strip contour found'')\<close>
  show "md = failure_metadata img ''No contours found in image'' \<or>
        md = failure_metadata img ''No suitable test strip contour found''" by auto
next
  fix msg show "\<not> success (failure_metadata img msg)" by (simp add: failure_metadata_def)
next
  fix msg show "message (failure_metadata img msg) = msg" by (simp add: failure_metadata_def)
qed

theorem failure_returns_input_witness:
  "size_of thin_image \<noteq> 0 \<and>
   find_contours blank_cv thin_image = [] \<and>
   crop_test_strip blank_cv (Some thin_image) =
     Inr (thin_image, failure_metadata thin_image ''No contours found in image'') \<and>
   find_contours thin_cv thin_image \<noteq> [] \<and>
   select_best thin_cv (height_of thin_image * width_of thin_image)
     (find_contours thin_cv thin_image) = Inr (None, 0) \<and>
   crop_test_strip thin_cv (Some thin_image) =
     Inr (thin_image, failure_metadata thin_image ''No suitable test strip contour found'') \<and>
   \<not> success (failure_metadata thin_image ''No suitable test strip contour found'') \<and>
   message (failure_metadata thin_image ''No suitable test strip contour found'') =
     ''No suitable test strip contour found''"
proof -
  have e: "find_contours blank_cv thin_image = []"
    by (simp add: blank_cv_def find_fixed)
  have f: "find_contours thin_cv thin_image = [((0, 10, 1, 5), 0)]"
    by (simp add: thin_cv_def find_fixed)
  have ne: "find_contours thin_cv thin_image \<noteq> []" by (simp add: f)
  have sel: "select_best thin_cv (height_of thin_image * width_of thin_image)
               (find_contours thin_cv thin_image) = Inr (None, 0)"
    using thin_select by (simp add: f thin_image_dims)
  note b = failure_returns_input [OF thin_image_dims(3), of blank_cv]
  note t = failure_returns_input [OF thin_image_dims(3), of thin_cv]
  from b e have r1: "crop_test_strip blank_cv (Some thin_image) =
     Inr (thin_image, failure_metadata thin_image ''No contours found in image'')"
    by blast
  from t ne sel have r2: "crop_test_strip thin_cv (Some thin_image) =
     Inr (thin_image, failure_metadata thin_image ''No suitable test strip contour found'')"
    by blast
  from t have r3: "\<not> success (failure_metadata thin_image ''No suitable test strip contour found'')"
    "message (failure_metadata thin_image ''No suitable test strip contour found'') =
     ''No suitable test strip contour found''"
    by blast+
  from thin_image_dims(3) e r1 ne sel r2 r3 show ?thesis by blast
qed

subsection \<open>C6: which buffers raise\<close>

text \<open>
  Claim C6 as stated fails: a buffer of one channel that is neither null nor empty does not
  come back as a pair. Line 73 lets it pass, and line 93 converts it with
  \<^verbatim>\<open>cv2.COLOR_BGR2GRAY\<close> whatever its number of channels, which raises \<^verbatim>\<open>cv2.error\<close>.
  The docstring of the function asks for an array in BGR format, and the loader of the
  repository decodes with \<^verbatim>\<open>IMREAD_COLOR\<close>.
\<close>

theorem one_channel_buffer_raises:
  "buffer_size gray_pixel = 1 \<and>
   crop_test_strip_buffer strip_cv (Some gray_pixel) = Inl Cv2Error"
  by (simp add: gray_pixel_def buffer_size_def gray_size_def crop_test_strip_buffer_def)

text \<open>
  Claim C6, amended: the pipeline raises a ValueError exactly when the buffer is null or has
  size 0, and it is then "Invalid image: image is None or empty"; for every buffer of
  three channels that is neither it returns a pair of a cropped buffer and a metadata
  record, and no division of the loop raises; for every buffer of one channel that is
  neither it raises \<^verbatim>\<open>cv2.error\<close>.
\<close>

theorem invalid_image_iff_null_or_empty:
  "((\<exists>msg. crop_test_strip_buffer cv buffer_opt = Inl (ValueError msg)) \<longleftrightarrow>
      (buffer_opt = None \<or> (\<exists>b. buffer_opt = Some b \<and> buffer_size b = 0))) \<and>
   (buffer_opt = None \<or> (\<exists>b. buffer_opt = Some b \<and> buffer_size b = 0) \<longrightarrow>
      crop_test_strip_buffer cv buffer_opt = Inl invalid_image) \<and>
   (\<forall>img. buffer_opt = Some (Color img) \<and> size_of img \<noteq> 0 \<longrightarrow>
      (\<exists>cropped md. crop_test_strip cv (Some img) = Inr (cropped, md) \<and>
         crop_test_strip_buffer cv buffer_opt = Inr (Color cropped, md))) \<and>
   (\<forall>g. buffer_opt = Some (Gray g) \<and> gray_size g \<noteq> 0 \<longrightarrow>
      crop_test_strip_buffer cv buffer_opt = Inl Cv2Error)"
proof (cases buffer_opt)
  case None
  then show ?thesis by (simp add: crop_test_strip_buffer_def invalid_image_def)
next
  case (Some b)
  show ?thesis
  proof (cases b)
    case (Gray g)
    show ?thesis
      by (simp add: Some Gray crop_test_strip_buffer_def buffer_size_def invalid_image_def)
  next
    case (Color img)
    show ?thesis
    proof (cases "size_of img = 0")
      case True
      then show ?thesis
        by (simp add: Some Color crop_test_strip_buffer_def buffer_size_def invalid_image_def)
    next
      case False
      then have "\<not> null_or_empty (Some img)" by (simp add: null_or_empty_def)
      with crop_bgr_total [of "Some img" cv] obtain cropped md where
        r: "crop_test_strip cv (Some img) = Inr (cropped, md)" by blast
      with False show ?thesis
        by (simp add: Some Color crop_test_strip_buffer_def buffer_size_def)
    qed
  qed
qed

theorem invalid_image_iff_null_or_empty_witness:
  "crop_test_strip_buffer strip_cv None =
     Inl (ValueError ''Invalid image: image is None or empty'') \<and>
   buffer_size (Color []) = 0 \<and>
   crop_test_strip_buffer strip_cv (Some (Color [])) =
     Inl (ValueError ''Invalid image: image is None or empty'') \<and>
   buffer_size (Gray []) = 0 \<and>
   crop_test_strip_buffer strip_cv (Some (Gray [])) =
     Inl (ValueError ''Invalid image: image is None or empty'') \<and>
   size_of strip_image \<noteq> 0 \<and>
   crop_test_strip_buffer strip_cv (Some (Color strip_image)) =
     Inr (Color (slice2 strip_image 85 415 98 152),
          success_metadata strip_image (98, 85, 152, 415)) \<and>
   gray_size [[0]] \<noteq> 0 \<and>
   crop_test_strip_buffer strip_cv (Some (Gray [[0]])) = Inl Cv2Error"
proof -
  have z: "buffer_size (Color []) = 0" "buffer_size (Gray []) = 0" "gray_size [[0]] \<noteq> 0"
    by (simp_all add: buffer_size_def size_of_def height_of_def gray_size_def)
  note n = invalid_image_iff_null_or_empty [of strip_cv None]
  note c0 = invalid_image_iff_null_or_empty [of strip_cv "Some (Color [])"]
  note g0 = invalid_image_iff_null_or_empty [of strip_cv "Some (Gray [])"]
  note c1 = invalid_image_iff_null_or_empty [of strip_cv "Some (Color strip_image)"]
  note g1 = invalid_image_iff_null_or_empty [of strip_cv "Some (Gray [[0]])"]
  from n have r1: "crop_test_strip_buffer strip_cv None =
     Inl (ValueError ''Invalid image: image is None or empty'')"
    by (simp add: invalid_image_def)
  from c0 z(1) have r2: "crop_test_strip_buffer strip_cv (Some (Color [])) =
     Inl (ValueError ''Invalid image: image is None or empty'')"
    by (simp add: invalid_image_def)
  from g0 z(2) have r3: "crop_test_strip_buffer strip_cv (Some (Gray [])) =
     Inl (ValueError ''Invalid image: image is None or empty'')"
    by (simp add: invalid_image_def)
  from c1 strip_image_dims(3) strip_run
  have r4: "crop_test_strip_buffer strip_cv (Some (Color strip_image)) =
     Inr (Color (slice2 strip_image 85 415 98 152),
          success_metadata strip_image (98, 85, 152, 415))"
    by simp
  from g1 z(3) have r5: "crop_test_strip_buffer strip_cv (Some (Gray [[0]])) = Inl Cv2Error"
    by simp
  from r1 z r2 r3 strip_image_dims(3) r4 r5 show ?thesis by simp
qed

subsection \<open>C7: what the filters reject\<close>

text \<open>
  Claim C7: for a positive image area and a bounding box of width \<open>w \<ge> 0\<close>, the filter
  stage never raises, and it rejects the contour exactly when the area ratio is outside
  \<open>[0.01, 0.95]\<close> or the aspect ratio, 0 for \<open>w = 0\<close>, is outside \<open>[1.5, 15.0]\<close>; a contour
  that passes is handed on with its box and its area ratio. A box of width 0 is rejected.
\<close>

theorem filter_rejects_iff_outside:
  assumes "0 < image_area" and "boundingRect cv c = (x, y, w, h)" and "0 \<le> w"
  shows "filter_contour cv image_area c =
           Inr (if spec_rejected image_area (x, y, w, h) then None
                else Some ((x, y, w, h), real_of_int (w * h) / real_of_int image_area)) \<and>
         (w = 0 \<longrightarrow> spec_aspect_ratio w h = 0 \<and> filter_contour cv image_area c = Inr None)"
proof -
  have eq: "filter_contour cv image_area c =
           Inr (if spec_rejected image_area (x, y, w, h) then None
                else Some ((x, y, w, h), real_of_int (w * h) / real_of_int image_area))"
    by (rule filter_spec [OF assms])
  have "w = 0 \<longrightarrow> spec_rejected image_area (x, y, w, h)" by (simp add: w0_rejected)
  with eq show ?thesis by (simp add: spec_aspect_ratio_def)
qed

theorem filter_rejects_iff_outside_witness:
  "(0::int) < 200 \<and> boundingRect thin_cv ((0, 10, 0, 5), 0) = (0, 10, 0, 5) \<and> (0::int) \<le> 0 \<and>
   filter_contour thin_cv 200 ((0, 10, 0, 5), 0) = Inr None \<and>
   filter_contour strip_cv 150000 ((100, 100, 50, 300), 14000) =
     Inr (Some ((100, 100, 50, 300), 1 / 10))"
proof -
  have b1: "boundingRect thin_cv ((0, 10, 0, 5), 0) = (0, 10, 0, 5)"
    by (simp add: thin_cv_def bounding_fixed)
  have b2: "boundingRect strip_cv ((100, 100, 50, 300), 14000) = (100, 100, 50, 300)"
    by (simp add: strip_cv_def bounding_fixed)
  have r2: "\<not> spec_rejected 150000 (100, 100, 50, 300)"
    by (simp add: spec_rejected_def spec_aspect_ratio_def)
  have t1: "filter_contour thin_cv 200 ((0, 10, 0, 5), 0) = Inr None"
    using filter_rejects_iff_outside [of 200 thin_cv _ 0 10 0 5, OF _ b1, THEN conjunct2]
    by simp
  have t2: "filter_contour strip_cv 150000 ((100, 100, 50, 300), 14000) =
     Inr (Some ((100, 100, 50, 300), 1 / 10))"
    using filter_rejects_iff_outside [of 150000 strip_cv _ 100 100 50 300, OF _ b2, THEN conjunct1]
      r2 by simp
  from t1 t2 b1 show ?thesis by simp
qed

subsection \<open>C8: two runs on one buffer\<close>

text \<open>
  Claim C8: two invocations on the same pixel buffer, in which the OpenCV primitives return
  the same contours with the same bounding boxes and areas, produce the same cropped
  buffer and the same metadata record. (Nothing else enters the result: the pipeline keeps
  no state between runs.)
\<close>

theorem same_buffer_same_result:
  assumes "same_contours cv cv' img"
  shows "crop_test_strip cv (Some img) = crop_test_strip cv' (Some img)"
proof -
  from assms have f: "find_contours cv' img = find_contours cv img"
    and p: "\<forall>c \<in> set (find_contours cv img).
              boundingRect cv c = boundingRect cv' c \<and> contourArea cv c = contourArea cv' c"
    by (simp_all add: same_contours_def)
  have sb: "select_best cv' ia (find_contours cv img) = select_best cv ia (find_contours cv img)"
    for ia
    unfolding select_best_def by (rule contour_loop_cong [OF p, symmetric])
  show ?thesis by (simp add: crop_test_strip_def Let_def f sb)
qed

theorem same_buffer_same_result_witness:
  "same_contours strip_cv strip_cv_alt strip_image \<and>
   same_contours strip_cv strip_cv strip_image \<and>
   crop_test_strip strip_cv (Some strip_image) = crop_test_strip strip_cv_alt (Some strip_image) \<and>
   crop_test_strip strip_cv (Some strip_image) = crop_test_strip strip_cv (Some strip_image)"
proof -
  have a: "same_contours strip_cv strip_cv_alt strip_image"
    by (simp add: same_contours_def strip_cv_alt_def strip_cv_def find_contours_def fixed_cv_def)
  have b: "same_contours strip_cv strip_cv strip_image"
    by (simp add: same_contours_def)
  from same_buffer_same_result [OF a] same_buffer_same_result [OF b] a b show ?thesis by blast
qed

subsection \<open>C9: the score is between 0 and 1\<close>

text \<open>
  Claim C9: for a contour that passed the filters, and whose enclosed polygon area is
  between 0 and the area of its bounding box, the scorer does not raise, and the score is the
  area ratio \<open>w * h / image_area\<close> times the rectangularity \<open>contourArea / (w * h)\<close>, a
  number in \<open>[0, 1]\<close>; on a bounding box whose area is not positive the rectangularity,
  and with it the score, is 0. The bound on the enclosed area is geometry: the polygon lies
  inside its bounding box.
\<close>

theorem score_in_unit_interval:
  assumes "0 < image_area"
    and "filter_contour cv image_area c = Inr (Some ((x, y, w, h), area_ratio))"
    and "0 \<le> contourArea cv c" and "contourArea cv c \<le> real_of_int (w * h)"
  shows "area_ratio = real_of_int (w * h) / real_of_int image_area \<and>
         score_contour cv c (x, y, w, h) area_ratio =
           Inr (area_ratio * (contourArea cv c / real_of_int (w * h))) \<and>
         0 \<le> area_ratio * (contourArea cv c / real_of_int (w * h)) \<and>
         area_ratio * (contourArea cv c / real_of_int (w * h)) \<le> 1 \<and>
         (w' * h' \<le> 0 \<longrightarrow> score_contour cv c (x', y', w', h') r = Inr 0)"
proof -
  have ia: "image_area \<noteq> 0" using assms(1) by simp
  from assms(2) have p: "passes_filters cv image_area c"
    and b: "boundingRect cv c = (x, y, w, h)" and r: "area_ratio = area_ratio_of cv image_area c"
    by (simp_all add: filter_contour_eq [OF ia] split: if_splits)
  from r b have ar_eq: "area_ratio = real_of_int (w * h) / real_of_int image_area"
    by (simp add: area_ratio_of_def)
  from passes_positive [OF p b] have wh: "0 < w" "0 < h" by simp_all
  then have pos: "0 < w * h" by simp
  then have rpos: "0 < real_of_int (w * h)" by (simp only: of_int_0_less_iff)
  define rect where "rect = contourArea cv c / real_of_int (w * h)"
  have rect: "0 \<le> rect" "rect \<le> 1"
    using assms(3,4) rpos unfolding rect_def by (simp_all add: divide_le_eq)
  from p have ar: "0 \<le> area_ratio" "area_ratio \<le> 1"
    by (simp_all add: r passes_filters_def MIN_AREA_RATIO_def MAX_AREA_RATIO_def)
  have sc: "score_contour cv c (x, y, w, h) area_ratio = Inr (area_ratio * rect)"
    using wh by (simp add: score_contour_def truediv_def rect_def Let_def)
  have lo: "0 \<le> area_ratio * rect" using ar(1) rect(1) by simp
  have hi: "area_ratio * rect \<le> 1" using ar rect by (simp add: mult_le_one)
  have guard: "w' * h' \<le> 0 \<longrightarrow> score_contour cv c (x', y', w', h') r = Inr 0"
    by (simp add: score_contour_def Let_def)
  from ar_eq sc lo hi guard show ?thesis unfolding rect_def by blast
qed

theorem score_in_unit_interval_witness:
  "(0::int) < 150000 \<and>
   filter_contour strip_cv 150000 ((100, 100, 50, 300), 14000) =
     Inr (Some ((100, 100, 50, 300), 1 / 10)) \<and>
   0 \<le> contourArea strip_cv ((100, 100, 50, 300), 14000) \<and>
   contourArea strip_cv ((100, 100, 50, 300), 14000) \<le> real_of_int (50 * 300) \<and>
   score_contour strip_cv ((100, 100, 50, 300), 14000) (100, 100, 50, 300) (1 / 10) =
     Inr (7 / 75) \<and>
   (0::real) \<le> 7 / 75 \<and> (7::real) / 75 \<le> 1 \<and>
   (0::int) * 5 \<le> 0 \<and> (3::int) * 0 \<le> 0 \<and>
   score_contour strip_cv ((100, 100, 50, 300), 14000) (0, 0, 0, 5) (1 / 10) = Inr 0 \<and>
   score_contour strip_cv ((100, 100, 50, 300), 14000) (0, 0, 3, 0) (1 / 10) = Inr 0"
proof -
  have f: "filter_contour strip_cv 150000 ((100, 100, 50, 300), 14000) =
     Inr (Some ((100, 100, 50, 300), 1 / 10))"
    by (simp add: strip_cv_def run_defs)
  have a: "0 \<le> contourArea strip_cv ((100, 100, 50, 300), 14000)"
    "contourArea strip_cv ((100, 100, 50, 300), 14000) \<le> real_of_int (50 * 300)"
    by (simp_all add: strip_cv_def area_fixed)
  have v: "contourArea strip_cv ((100, 100, 50, 300), 14000) = 14000"
    by (simp add: strip_cv_def area_fixed)
  note t1 = score_in_unit_interval [OF _ f a, of 0 5 0 0 "1 / 10"]
  note t2 = score_in_unit_interval [OF _ f a, of 3 0 0 0 "1 / 10"]
  from t1 have s: "score_contour strip_cv ((100, 100, 50, 300), 14000) (100, 100, 50, 300) (1 / 10) =
     Inr (7 / 75)"
    by (simp add: v)
  from t1 have g1: "score_contour strip_cv ((100, 100, 50, 300), 14000) (0, 0, 0, 5) (1 / 10) = Inr 0"
    by simp
  from t2 have g2: "score_contour strip_cv ((100, 100, 50, 300), 14000) (0, 0, 3, 0) (1 / 10) = Inr 0"
    by simp
  from f a s g1 g2 show ?thesis by simp
qed

subsection \<open>C10: the crop contains the winner\<close>

text \<open>
  Claim C10: on every successful run over a rectangular buffer whose contours have their
  bounding boxes inside the image, the crop rectangle contains the winning box, the
  reported \<open>bbox\<close> is \<open>(x1, y1, x2 - x1, y2 - y1)\<close>, the reported \<open>cropped_size\<close> is
  \<open>(x2 - x1, y2 - y1)\<close> and is the width and height of the cropped buffer, and both are
  strictly positive.
\<close>

theorem crop_contains_winner:
  assumes "boxes_within cv img" and "rectangular img"
    and "crop_test_strip cv (Some img) = Inr (cropped, md)" and "success md"
  shows "\<exists>x y w h s x1 y1 x2 y2.
           select_best cv (height_of img * width_of img) (find_contours cv img) =
             Inr (Some (x, y, w, h), s) \<and>
           crop_box (width_of img) (height_of img) (x, y, w, h) = (x1, y1, x2, y2) \<and>
           x1 \<le> x \<and> y1 \<le> y \<and> x + w \<le> x2 \<and> y + h \<le> y2 \<and>
           bbox md = Some (x1, y1, x2 - x1, y2 - y1) \<and>
           cropped_size md = Some (x2 - x1, y2 - y1) \<and>
           width_of cropped = x2 - x1 \<and> height_of cropped = y2 - y1 \<and>
           0 < x2 - x1 \<and> 0 < y2 - y1"
proof -
  from winner_geometry [OF assms(1,3,4)] obtain x y w h s x1 y1 x2 y2 where
    g: "select_best cv (height_of img * width_of img) (find_contours cv img) =
             Inr (Some (x, y, w, h), s)"
       "crop_box (width_of img) (height_of img) (x, y, w, h) = (x1, y1, x2, y2)"
       "cropped = slice2 img y1 y2 x1 x2"
       "md = success_metadata img (x1, y1, x2, y2)" "0 < w" "0 < h"
       "0 \<le> x1" "x1 \<le> x" "x + w \<le> x2" "x2 \<le> width_of img"
       "0 \<le> y1" "y1 \<le> y" "y + h \<le> y2" "y2 \<le> height_of img"
    by blast
  have lt: "x1 < x2" "y1 < y2" using g by linarith+
  then have le: "x1 \<le> x2" by simp
  have md: "bbox md = Some (x1, y1, x2 - x1, y2 - y1)"
    "cropped_size md = Some (x2 - x1, y2 - y1)"
    by (simp_all add: g(4) success_metadata_def)
  from slice2_dims [OF assms(2) g(11) lt(2) g(14) g(7) le g(10)]
  have dims: "height_of cropped = y2 - y1" "width_of cropped = x2 - x1"
    by (simp_all add: g(3))
  have pos: "0 < x2 - x1" "0 < y2 - y1" using lt by simp_all
  from g(1,2,8,12,9,13) md dims pos show ?thesis by blast
qed

theorem crop_contains_winner_witness:
  "boxes_within strip_cv strip_image \<and> rectangular strip_image \<and>
   crop_test_strip strip_cv (Some strip_image) =
     Inr (slice2 strip_image 85 415 98 152, success_metadata strip_image (98, 85, 152, 415)) \<and>
   success (success_metadata strip_image (98, 85, 152, 415)) \<and>
   (\<exists>x y w h s x1 y1 x2 y2.
      select_best strip_cv (height_of strip_image * width_of strip_image)
        (find_contours strip_cv strip_image) = Inr (Some (x, y, w, h), s) \<and>
      crop_box (width_of strip_image) (height_of strip_image) (x, y, w, h) = (x1, y1, x2, y2) \<and>
      x1 \<le> x \<and> y1 \<le> y \<and> x + w \<le> x2 \<and> y + h \<le> y2 \<and>
      bbox (success_metadata strip_image (98, 85, 152, 415)) = Some (x1, y1, x2 - x1, y2 - y1) \<and>
      cropped_size (success_metadata strip_image (98, 85, 152, 415)) = Some (x2 - x1, y2 - y1) \<and>
      width_of (slice2 strip_image 85 415 98 152) = x2 - x1 \<and>
      height_of (slice2 strip_image 85 415 98 152) = y2 - y1 \<and>
      0 < x2 - x1 \<and> 0 < y2 - y1)"
proof -
  have w: "boxes_within strip_cv strip_image"
    by (simp add: boxes_within_def strip_cv_def find_fixed bounding_fixed strip_image_dims)
  have s: "success (success_metadata strip_image (98, 85, 152, 415))"
    by (simp add: success_metadata_def)
  from crop_contains_winner [OF w strip_image_dims(4) strip_run s] w strip_image_dims(4) strip_run s
  show ?thesis by blast
qed

end
